theory Spec2Isabelle
  imports Complex_Main
begin

section \<open>JavaScript numbers and the library functions parsePrice calls\<close>

text \<open>
  A JavaScript Number is an IEEE 754 double. A finite double is a rational, so the finite
  values are kept exactly as \<open>Num q\<close>; the two infinities and NaN are values of their own.
  The two zeros are one value here (no caller tells them apart with \<open>===\<close> or \<open>toBe\<close>
  on a price, and no text of digits and dots parses to a negative number).
\<close>

datatype number = Num rat | PosInfinity | NegInfinity | NaN

definition pow2 :: "int \<Rightarrow> rat" where
  "pow2 e = (if 0 \<le> e then 2 ^ nat e else 1 / 2 ^ nat (- e))"

text \<open>Number of binary digits of a natural number.\<close>

fun bitLength :: "nat \<Rightarrow> nat" where
  "bitLength n = (if n = 0 then 0 else Suc (bitLength (n div 2)))"

declare bitLength.simps [simp del]

text \<open>\<open>ilog2 a b\<close> is the binary exponent of the positive ratio \<open>a / b\<close>:
  the \<open>e\<close> with \<open>2 ^ e \<le> a / b < 2 ^ (e + 1)\<close>.\<close>

definition ilog2 :: "nat \<Rightarrow> nat \<Rightarrow> int" where
  "ilog2 a b =
     (let d = int (bitLength a) - int (bitLength b)
      in if (if 0 \<le> d then b * 2 ^ nat d \<le> a else b \<le> a * 2 ^ nat (- d)) then d else d - 1)"

text \<open>The integer nearest to \<open>a / b\<close>, a tie going to the even neighbour.\<close>

definition roundTiesToEven :: "nat \<Rightarrow> nat \<Rightarrow> nat" where
  "roundTiesToEven a b =
     (let q = a div b; r = a mod b
      in if 2 * r < b then q else if b < 2 * r then q + 1 else if even q then q else q + 1)"

text \<open>
  The double nearest to the ratio \<open>a / b\<close> (round to nearest, ties to even): 53 bits of
  mantissa at the ratio's own exponent, the exponent of the last bit never below \<open>-1074\<close>
  (the subnormal range). \<open>None\<close> is overflow: the rounded value needs an exponent above
  1023.
\<close>

definition roundRatio :: "nat \<Rightarrow> nat \<Rightarrow> rat option" where
  "roundRatio a b =
     (if a = 0 then Some 0
      else let p = max (ilog2 a b - 52) (- 1074);
               m = (if 0 \<le> p then roundTiesToEven a (b * 2 ^ nat p)
                    else roundTiesToEven (a * 2 ^ nat (- p)) b)
           in if 1024 < int (bitLength m) + p then None else Some (of_nat m * pow2 p))"

definition isDigit :: "char \<Rightarrow> bool" where
  "isDigit c = (c \<in> set ''0123456789'')"

definition digitVal :: "char \<Rightarrow> nat" where
  "digitVal c = of_char c - 48"

definition digitsVal :: "string \<Rightarrow> nat" where
  "digitsVal ds = foldl (\<lambda>a c. 10 * a + digitVal c) 0 ds"

text \<open>The white space \<open>parseFloat\<close> skips, as far as it fits a one-byte character:
  TAB, LF, VT, FF, CR, space and the no-break space.\<close>

definition isStrWhiteSpaceChar :: "char \<Rightarrow> bool" where
  "isStrWhiteSpaceChar c = ((of_char c :: nat) \<in> set [9, 10, 11, 12, 13, 32, 160])"

text \<open>The exponent part at the head of the text: \<open>e\<close> or \<open>E\<close>, an optional sign and at
  least one digit. Anything else is no exponent part, and the exponent is zero.\<close>

definition exponentPart :: "string \<Rightarrow> int" where
  "exponentPart r =
     (case r of
        [] \<Rightarrow> 0
      | c # r1 \<Rightarrow>
          if c = CHR ''e'' \<or> c = CHR ''E'' then
            (case r1 of
               [] \<Rightarrow> 0
             | d # r2 \<Rightarrow>
                 if d = CHR ''-'' then - int (digitsVal (takeWhile isDigit r2))
                 else if d = CHR ''+'' then int (digitsVal (takeWhile isDigit r2))
                 else int (digitsVal (takeWhile isDigit r1)))
          else 0)"

text \<open>
  The longest prefix of the text that is an unsigned decimal literal (\<open>Infinity\<close>,
  digits with an optional fraction and exponent, or a dot followed by digits), as a Number;
  NaN when no prefix is one.
\<close>

definition strUnsignedDecimalLiteral :: "string \<Rightarrow> number" where
  "strUnsignedDecimalLiteral t =
     (if take 8 t = ''Infinity'' then PosInfinity
      else
        let ip = takeWhile isDigit t;
            r1 = dropWhile isDigit t;
            fp = (case r1 of [] \<Rightarrow> [] | c # r \<Rightarrow> if c = CHR ''.'' then takeWhile isDigit r else []);
            r2 = (case r1 of [] \<Rightarrow> [] | c # r \<Rightarrow> if c = CHR ''.'' then dropWhile isDigit r else r1)
        in if ip = [] \<and> fp = [] then NaN
           else
             let x = exponentPart r2 - int (length fp);
                 n = digitsVal (ip @ fp)
             in (case (if 0 \<le> x then roundRatio (n * 10 ^ nat x) 1
                       else roundRatio n (10 ^ nat (- x))) of
                   None \<Rightarrow> PosInfinity
                 | Some v \<Rightarrow> Num v))"

fun negate :: "number \<Rightarrow> number" where
  "negate (Num q) = Num (- q)"
| "negate PosInfinity = NegInfinity"
| "negate NegInfinity = PosInfinity"
| "negate NaN = NaN"

text \<open>\<open>Number.parseFloat\<close>: skip leading white space, read a sign, then the longest
  decimal literal; NaN when there is none.\<close>

definition parseFloat :: "string \<Rightarrow> number" where
  "parseFloat s =
     (case dropWhile isStrWhiteSpaceChar s of
        [] \<Rightarrow> NaN
      | c # r \<Rightarrow>
          if c = CHR ''-'' then negate (strUnsignedDecimalLiteral r)
          else if c = CHR ''+'' then strUnsignedDecimalLiteral r
          else strUnsignedDecimalLiteral (c # r))"

fun Number_isFinite :: "number \<Rightarrow> bool" where
  "Number_isFinite (Num q) = True"
| "Number_isFinite PosInfinity = False"
| "Number_isFinite NegInfinity = False"
| "Number_isFinite NaN = False"

text \<open>\<open>Math.round\<close>: the nearest integer, a tie going up.\<close>

fun Math_round :: "number \<Rightarrow> number" where
  "Math_round (Num q) = Num (of_int \<lfloor>q + 1 / 2\<rfloor>)"
| "Math_round PosInfinity = PosInfinity"
| "Math_round NegInfinity = NegInfinity"
| "Math_round NaN = NaN"

section \<open>utils/money: parsePrice\<close>

text \<open>
  \<^verbatim>\<open>
  export function parsePrice(text: string): number {
      const digits = text.replace(/[^\d.]/g, '');
      const n = Number.parseFloat(digits || '0');
      return Math.round(Number.isFinite(n) ? n : 0);
  }
  \<close>
  The regular expression removes every character that is neither one of \<open>0\<close> to \<open>9\<close>
  nor a dot; an empty string is falsy, so \<open>digits || '0'\<close> is \<open>'0'\<close> exactly when
  nothing is left. A text is a list of characters, one byte each here; whatever a
  character outside the digits and the dot is, the first step removes it.
\<close>

definition stripNonNumeric :: "string \<Rightarrow> string" where
  "stripNonNumeric text = filter (\<lambda>c. isDigit c \<or> c = CHR ''.'') text"

definition parsePrice :: "string \<Rightarrow> number" where
  "parsePrice text =
     (let digits = stripNonNumeric text;
          n = parseFloat (if digits = [] then ''0'' else digits)
      in Math_round (if Number_isFinite n then n else Num 0))"

text \<open>The Number that \<open>parsePrice\<close> hands to \<open>Number.isFinite\<close> and \<open>Math.round\<close>
  (its local \<open>n\<close>).\<close>

definition parsedNumber :: "string \<Rightarrow> number" where
  "parsedNumber raw = (let digits = stripNonNumeric raw in parseFloat (if digits = [] then ''0'' else digits))"

subsection \<open>The normalizer as the specification words it\<close>

text \<open>
  The specification gives the normalizer as three steps: strip every character that is
  not a decimal digit or a dot, in one pass; parse the rest as a floating-point number,
  an empty rest or a failed parse being zero; round to the nearest integer. These
  definitions follow those words, to be compared with \<open>parsePrice\<close> above. The parse
  is the platform's (\<open>parseFloat\<close>), and it has failed when it yields NaN: a text too
  large for a double parses, to \<open>Infinity\<close>. Of the two tie rules the specification
  allows, the one taken is half away from zero (the documented value for \<open>"790.50"\<close>
  is 791). An infinity has no nearest integer and is left as it is, as \<open>Math.round\<close>
  leaves it.
\<close>

definition spec_strip :: "string \<Rightarrow> string" where
  "spec_strip raw = filter (\<lambda>c. c \<in> set ''0123456789.'') raw"

definition spec_parse :: "string \<Rightarrow> number" where
  "spec_parse rest =
     (if rest = [] then Num 0 else (case parseFloat rest of NaN \<Rightarrow> Num 0 | n \<Rightarrow> n))"

fun spec_round :: "number \<Rightarrow> number" where
  "spec_round (Num v) = Num (of_int (if 0 \<le> v then \<lfloor>v + 1 / 2\<rfloor> else - \<lfloor>- v + 1 / 2\<rfloor>))"
| "spec_round PosInfinity = PosInfinity"
| "spec_round NegInfinity = NegInfinity"
| "spec_round NaN = NaN"

definition spec_normalize :: "string \<Rightarrow> number" where
  "spec_normalize raw = spec_round (spec_parse (spec_strip raw))"

text \<open>The plain decimal text of a natural number: what a storefront writes for a whole
  amount.\<close>

definition digitChar :: "nat \<Rightarrow> char" where
  "digitChar d = ''0123456789'' ! d"

fun decimal :: "nat \<Rightarrow> string" where
  "decimal n = (if n < 10 then [digitChar n] else decimal (n div 10) @ [digitChar (n mod 10)])"

declare decimal.simps [simp del]

text \<open>A text too large for a double: a one followed by 309 zeros.\<close>

definition overlong :: string where
  "overlong = CHR ''1'' # replicate 309 (CHR ''0'')"

section \<open>The cart page of the storefront, as the page object sees it\<close>

text \<open>
  The page object drives a browser through Playwright. What it can see of the cart page
  is the listing \<open>#tbodyid > tr\<close> (one row per line item, with the item's name in the
  cell \<open>td\<close> 1 and its price text in the cell \<open>td\<close> 2) and the text of \<open>#totalp\<close>.
  \<open>textContent()\<close> is typed \<open>string | null\<close>, so a cell's text is an option.
  Positions are zero-based indices, taken as naturals.
\<close>

record row =
  nameCell :: "string option"
  priceCell :: "string option"

text \<open>
  \<open>rows\<close> is the listing the page shows. \<open>totalText\<close> is the storefront's own total
  for a listing: the text it writes into \<open>#totalp\<close> when it shows that listing.
  \<open>deleteClicks\<close> records the positions whose Delete link was clicked, oldest first.
  \<open>pending\<close> holds the positions, in the listing shown, of the deletions the
  storefront has accepted and not yet applied to that listing.
\<close>

record cartView =
  rows :: "row list"
  totalText :: "row list \<Rightarrow> string option"
  deleteClicks :: "nat list"
  pending :: "nat list"

text \<open>
  The failures of the source: Playwright's \<open>TimeoutError\<close> (an action or a wait gave up;
  \<open>actionTimeout\<close> is 15 s in the configuration), the \<open>Error\<close> that \<open>deleteByName\<close>
  throws with its message, and a failed \<open>expect\<close>.
\<close>

datatype error = TimeoutError | ThrownError string | ExpectFailed

type_synonym 'a outcome = "(error + 'a) \<times> cartView"

text \<open>
  Modelled from the spec: the error taxonomy of section 7, which the repository does not
  declare. A wait that exceeded its budget is \<open>Timeout\<close>, a lookup or deletion target
  that does not exist is \<open>NotFound\<close>, a position beyond the item count is
  \<open>OutOfRange\<close>, a sum that differs from the reported total is \<open>InvariantViolation\<close>.
  \<open>conditionOf\<close> files each failure of the source under the condition that describes
  what was raised.
\<close>

datatype condition = OutOfRange | NotFound | Timeout | InvariantViolation

fun conditionOf :: "error \<Rightarrow> condition" where
  "conditionOf TimeoutError = Timeout"
| "conditionOf (ThrownError msg) = NotFound"
| "conditionOf ExpectFailed = InvariantViolation"

subsection \<open>The storefront and the driver\<close>

text \<open>
  Modelled from the spec: the storefront's deletion trigger and its settlement (sections
  4.2 (d), 5 and 6), which are the remote system and no code of the repository. The
  storefront accepts a deletion at once and applies it later: until then the page shows
  the old listing. Applying the pending deletions removes the line items at those
  positions and renumbers the items after them. \<open>storefrontDelete\<close> removes one
  position, \<open>storefrontApply\<close> every position of a list (\<open>keepFrom k\<close> walks the
  listing from position \<open>k\<close> on), and \<open>settle\<close> is the page once the pending
  deletions have taken effect.
\<close>

definition storefrontDelete :: "nat \<Rightarrow> row list \<Rightarrow> row list" where
  "storefrontDelete i rs = take i rs @ drop (Suc i) rs"

fun keepFrom :: "nat \<Rightarrow> nat list \<Rightarrow> row list \<Rightarrow> row list" where
  "keepFrom k ps [] = []"
| "keepFrom k ps (r # rs) =
     (if k \<in> set ps then keepFrom (Suc k) ps rs else r # keepFrom (Suc k) ps rs)"

definition storefrontApply :: "nat list \<Rightarrow> row list \<Rightarrow> row list" where
  "storefrontApply ps rs = keepFrom 0 ps rs"

definition settle :: "cartView \<Rightarrow> cartView" where
  "settle s = s\<lparr>rows := storefrontApply (pending s) (rows s), pending := []\<rparr>"

text \<open>
  \<open>rows.count()\<close> and a read of a row that is there answer at once and leave the page as
  it is. An action on \<open>rows.nth(i)\<close> (reading a cell's text, clicking its Delete link)
  waits for the row; on a listing that has no row at that position the wait ends in
  \<open>TimeoutError\<close> and the page is as it was. A click on the Delete link of a row that is
  there hands the storefront one more deletion. \<open>waitFor({ state: 'detached' })\<close> on
  \<open>rows.nth(i)\<close> waits on the position, which the driver resolves anew each time it
  looks: while it waits the pending deletions take effect, and it returns once no row is
  at position \<open>i\<close> and ends in \<open>TimeoutError\<close> when a row is there, be it the row that
  moved up from position \<open>i + 1\<close>.
\<close>

definition textContent :: "(row \<Rightarrow> string option) \<Rightarrow> nat \<Rightarrow> cartView \<Rightarrow> (string option) outcome" where
  "textContent cell i s =
     (if i < length (rows s) then (Inr (cell (rows s ! i)), s) else (Inl TimeoutError, s))"

definition clickDelete :: "nat \<Rightarrow> cartView \<Rightarrow> unit outcome" where
  "clickDelete i s =
     (if i < length (rows s)
      then (Inr (), s\<lparr>deleteClicks := deleteClicks s @ [i], pending := pending s @ [i]\<rparr>)
      else (Inl TimeoutError, s))"

definition waitForDetached :: "nat \<Rightarrow> cartView \<Rightarrow> unit outcome" where
  "waitForDetached i s =
     (let s1 = settle s
      in if i < length (rows s1) then (Inl TimeoutError, s1) else (Inr (), s1))"

text \<open>\<open>String.prototype.trim\<close>: white space off both ends. \<open>nullish t d\<close> is
  \<open>t ?? d\<close>.\<close>

definition nullish :: "string option \<Rightarrow> string \<Rightarrow> string" where
  "nullish t d = (case t of None \<Rightarrow> d | Some x \<Rightarrow> x)"

definition trim :: "string \<Rightarrow> string" where
  "trim t = rev (dropWhile isStrWhiteSpaceChar (rev (dropWhile isStrWhiteSpaceChar t)))"

subsection \<open>pages/CartPage\<close>

text \<open>
  \<^verbatim>\<open>
  async open() {
    await this.cartLink.click();
    await this.page.waitForLoadState('domcontentloaded');
    await this.page.waitForTimeout(2000);
    const itemCount = await this.rows.count();
    if (itemCount > 0) {
      await expect(this.rows.first()).toBeVisible();
    }
  }
  \<close>
  Opening loads the cart page afresh and waits two seconds: the listing it shows has
  settled. The assertion on the first row is kept.
\<close>

definition "open" :: "cartView \<Rightarrow> unit outcome" where
  "open s =
     (let s1 = settle s;
          itemCount = length (rows s1)
      in if 0 < itemCount then (if rows s1 = [] then (Inl ExpectFailed, s1) else (Inr (), s1))
         else (Inr (), s1))"

definition countItems :: "cartView \<Rightarrow> nat outcome" where
  "countItems s = (Inr (length (rows s)), s)"

text \<open>
  \<^verbatim>\<open>
  async getRowName(i: number): Promise<string> {
    return (await this.rows.nth(i).locator('td').nth(1).textContent() ?? '').trim();
  }
  async getRowPrice(i: number): Promise<number> {
    const txt = await this.rows.nth(i).locator('td').nth(2).textContent() ?? '0';
    return parsePrice(txt);
  }
  async getTotal(): Promise<number> {
    const txt = await this.total.textContent() ?? '0';
    return parsePrice(txt);
  }
  \<close>
\<close>

definition getRowName :: "nat \<Rightarrow> cartView \<Rightarrow> string outcome" where
  "getRowName i s =
     (case textContent nameCell i s of
        (Inl e, s') \<Rightarrow> (Inl e, s')
      | (Inr t, s') \<Rightarrow> (Inr (trim (nullish t '''')), s'))"

definition getRowPrice :: "nat \<Rightarrow> cartView \<Rightarrow> number outcome" where
  "getRowPrice i s =
     (case textContent priceCell i s of
        (Inl e, s') \<Rightarrow> (Inl e, s')
      | (Inr t, s') \<Rightarrow> (Inr (parsePrice (nullish t ''0'')), s'))"

definition getTotal :: "cartView \<Rightarrow> number outcome" where
  "getTotal s =
     (Inr (parsePrice (nullish (totalText s (rows s)) ''0'')), s)"

text \<open>
  \<^verbatim>\<open>
  async deleteByIndex(i: number) {
    await this.rows.nth(i).getByRole('link', { name: 'Delete' }).click();
    await this.rows.nth(i).waitFor({ state: 'detached' });
  }
  \<close>
\<close>

definition deleteByIndex :: "nat \<Rightarrow> cartView \<Rightarrow> unit outcome" where
  "deleteByIndex i s =
     (case clickDelete i s of
        (Inl e, s') \<Rightarrow> (Inl e, s')
      | (Inr u, s') \<Rightarrow> waitForDetached i s')"





text \<open>
  \<^verbatim>\<open>
  async clearCart() {
    await this.open();
    const itemCount = await this.countItems();
    if (itemCount === 0) {
      return;
    }
    for (let i = itemCount - 1; i >= 0; i--) {
      await this.deleteByIndex(i);
    }
    await expect(await this.countItems()).toBe(0);
  }
  \<close>
  \<open>deleteDownFrom k\<close> is the loop with \<open>k\<close> rounds to go: it deletes at \<open>k - 1\<close>, then at
  \<open>k - 2\<close>, down to \<open>0\<close>, and stops at the first failure.
\<close>

fun deleteDownFrom :: "nat \<Rightarrow> cartView \<Rightarrow> unit outcome" where
  "deleteDownFrom 0 s = (Inr (), s)"
| "deleteDownFrom (Suc i) s =
     (case deleteByIndex i s of
        (Inl e, s') \<Rightarrow> (Inl e, s')
      | (Inr u, s') \<Rightarrow> deleteDownFrom i s')"

definition clearCart :: "cartView \<Rightarrow> unit outcome" where
  "clearCart s =
     (case open s of
        (Inl e, s1) \<Rightarrow> (Inl e, s1)
      | (Inr u, s1) \<Rightarrow>
          (case countItems s1 of
             (Inl e, s2) \<Rightarrow> (Inl e, s2)
           | (Inr itemCount, s2) \<Rightarrow>
               if itemCount = 0 then (Inr (), s2)
               else
                 (case deleteDownFrom itemCount s2 of
                    (Inl e, s3) \<Rightarrow> (Inl e, s3)
                  | (Inr u, s3) \<Rightarrow>
                      (case countItems s3 of
                         (Inl e, s4) \<Rightarrow> (Inl e, s4)
                       | (Inr left, s4) \<Rightarrow>
                           if left = 0 then (Inr (), s4) else (Inl ExpectFailed, s4)))))"

text \<open>The name \<open>getRowName\<close> returns for a row that is there.\<close>

definition rowName :: "row \<Rightarrow> string" where
  "rowName r = trim (nullish (nameCell r) '''')"

subsection \<open>The invariant the tests assert\<close>

text \<open>
  The amounts a snapshot shows, as \<open>getRowPrice\<close> reads them, their sum, and the
  comparison with \<open>getTotal\<close>'s reading that the tests make (\<open>expect(total).toBe(p0 + p1)\<close>
  for two rows). The amounts are integers, summed exactly.
\<close>

fun valueOf :: "number \<Rightarrow> rat" where
  "valueOf (Num q) = q"
| "valueOf PosInfinity = 0"
| "valueOf NegInfinity = 0"
| "valueOf NaN = 0"

definition lineAmounts :: "cartView \<Rightarrow> number list" where
  "lineAmounts s =
     map (\<lambda>r. parsePrice (nullish (priceCell r) ''0'')) (rows s)"

definition totalMatchesSum :: "cartView \<Rightarrow> bool" where
  "totalMatchesSum s =
     (fst (getTotal s) = Inr (Num (sum_list (map valueOf (lineAmounts s)))))"

subsection \<open>Example carts\<close>

definition sony5 :: row where
  "sony5 = \<lparr>nameCell = Some ''Sony vaio i5'', priceCell = Some ''790''\<rparr>"

definition sony7 :: row where
  "sony7 = \<lparr>nameCell = Some '' Sony vaio i7 '', priceCell = Some ''$790''\<rparr>"

text \<open>Two items, and a storefront that shows 1580 as their total.\<close>

definition twoItems :: cartView where
  "twoItems =
     \<lparr>rows = [sony5, sony7], totalText = (\<lambda>rs. Some ''1580''), deleteClicks = [],
      pending = []\<rparr>"

text \<open>The same two items under a total that counts one of them only.\<close>

definition shortTotal :: cartView where
  "shortTotal =
     \<lparr>rows = [sony5, sony7], totalText = (\<lambda>rs. Some ''790''), deleteClicks = [],
      pending = []\<rparr>"

definition oneItem :: cartView where
  "oneItem =
     \<lparr>rows = [sony7], totalText = (\<lambda>rs. Some ''790''), deleteClicks = [], pending = []\<rparr>"

text \<open>Two items with whole prices, and a storefront that shows their sum.\<close>

definition dell :: row where
  "dell = \<lparr>nameCell = Some ''Dell i7 8gb'', priceCell = Some ''$700''\<rparr>"

definition plainCart :: cartView where
  "plainCart =
     \<lparr>rows = [sony7, dell], totalText = (\<lambda>rs. Some ''$1,490''), deleteClicks = [],
      pending = []\<rparr>"

text \<open>Whole amounts written with cents, and a storefront that shows their sum.\<close>

definition macbook :: row where
  "macbook = \<lparr>nameCell = Some ''MacBook air'', priceCell = Some ''700.00''\<rparr>"

definition centsCart :: cartView where
  "centsCart =
     \<lparr>rows = [sony5, macbook], totalText = (\<lambda>rs. Some ''1,490.00''), deleteClicks = [],
      pending = []\<rparr>"

text \<open>Two items at ten and a half each, and a storefront that shows their sum, 21.\<close>

definition halfPrice :: row where
  "halfPrice = \<lparr>nameCell = Some ''Cable'', priceCell = Some ''$10.50''\<rparr>"

definition driftCart :: cartView where
  "driftCart =
     \<lparr>rows = [halfPrice, halfPrice], totalText = (\<lambda>rs. Some ''$21.00''), deleteClicks = [],
      pending = []\<rparr>"

definition emptyCart :: cartView where
  "emptyCart = \<lparr>rows = [], totalText = (\<lambda>rs. Some ''''), deleteClicks = [], pending = []\<rparr>"

section \<open>Evaluating the number model\<close>

lemma floor_numeral_ratio:
  "\<lfloor>(numeral a :: rat) / numeral b\<rfloor> = numeral a div numeral b"
  "\<lfloor>(1 :: rat) / numeral b\<rfloor> = 1 div numeral b"
  using floor_divide_of_int_eq [of "numeral a" "numeral b", where ?'a = rat]
    floor_divide_of_int_eq [of 1 "numeral b", where ?'a = rat]
  by simp_all

lemmas number_eval =
  floor_numeral_ratio parsePrice_def stripNonNumeric_def parseFloat_def strUnsignedDecimalLiteral_def
  exponentPart_def isStrWhiteSpaceChar_def isDigit_def digitVal_def digitsVal_def
  roundRatio_def ilog2_def roundTiesToEven_def pow2_def bitLength.simps Let_def

lemma parsePrice_zero_text: "parsePrice ''0'' = Num 0"
  by (simp add: number_eval)

section \<open>What the parse of stripped text can be\<close>

lemma pow2_pos: "0 < pow2 e"
  by (simp add: pow2_def)

lemma scaled_nonneg: "0 \<le> rat_of_nat m * pow2 p"
  using pow2_pos [of p] by simp

lemma roundRatio_nonneg: "roundRatio a b = Some v \<Longrightarrow> 0 \<le> v"
  using scaled_nonneg by (auto simp: roundRatio_def Let_def split: if_splits)

lemma strUnsignedDecimalLiteral_range:
  "strUnsignedDecimalLiteral t = NaN \<or> strUnsignedDecimalLiteral t = PosInfinity
   \<or> (\<exists>v. 0 \<le> v \<and> strUnsignedDecimalLiteral t = Num v)"
  by (auto simp: strUnsignedDecimalLiteral_def Let_def dest: roundRatio_nonneg split: option.splits)

lemma numeric_char_plain:
  assumes "isDigit c \<or> c = CHR ''.''"
  shows "\<not> isStrWhiteSpaceChar c" and "c \<noteq> CHR ''-''" and "c \<noteq> CHR ''+''"
  using assms by (auto simp: isDigit_def isStrWhiteSpaceChar_def)

lemma parseFloat_numeric_head:
  assumes "isDigit c \<or> c = CHR ''.''"
  shows "parseFloat (c # r) = strUnsignedDecimalLiteral (c # r)"
  using numeric_char_plain [OF assms] by (simp add: parseFloat_def)

lemma stripNonNumeric_head:
  "stripNonNumeric raw = c # r \<Longrightarrow> isDigit c \<or> c = CHR ''.''"
proof -
  assume "stripNonNumeric raw = c # r"
  then have "c \<in> set (filter (\<lambda>c. isDigit c \<or> c = CHR ''.'') raw)"
    by (simp add: stripNonNumeric_def)
  then show ?thesis by simp
qed

lemma parseFloat_zero_text: "parseFloat ''0'' = Num 0"
  by (simp add: number_eval)

lemma parsedNumber_range:
  "parsedNumber raw = NaN \<or> parsedNumber raw = PosInfinity \<or> (\<exists>v. 0 \<le> v \<and> parsedNumber raw = Num v)"
proof (cases "stripNonNumeric raw")
  case Nil
  then show ?thesis by (simp add: parsedNumber_def parseFloat_zero_text)
next
  case (Cons c r)
  then have "parsedNumber raw = strUnsignedDecimalLiteral (c # r)"
    using parseFloat_numeric_head [OF stripNonNumeric_head [OF Cons]] by (simp add: parsedNumber_def)
  then show ?thesis using strUnsignedDecimalLiteral_range [of "c # r"] by simp
qed

lemma parsePrice_parsed:
  "parsePrice raw = Math_round (if Number_isFinite (parsedNumber raw) then parsedNumber raw else Num 0)"
  by (simp add: parsePrice_def parsedNumber_def Let_def)

lemma Math_round_zero: "Math_round (Num 0) = Num 0"
  by (simp add: floor_numeral_ratio)

lemma parsePrice_not_finite:
  assumes "\<not> Number_isFinite (parsedNumber raw)"
  shows "parsePrice raw = Num 0"
proof -
  have "parsePrice raw = Math_round (Num 0)"
    using assms by (simp only: parsePrice_parsed if_False)
  then show ?thesis by (simp only: Math_round_zero)
qed

lemma parsePrice_finite:
  assumes "parsedNumber raw = Num v"
  shows "parsePrice raw = Num (of_int \<lfloor>v + 1 / 2\<rfloor>)"
  using assms by (simp add: parsePrice_parsed)

lemma spec_strip_eq: "spec_strip raw = stripNonNumeric raw"
  unfolding spec_strip_def stripNonNumeric_def
  by (rule filter_cong) (auto simp: isDigit_def)

lemma parsedNumber_Cons: "stripNonNumeric raw = c # r \<Longrightarrow> parsedNumber raw = parseFloat (c # r)"
  by (simp add: parsedNumber_def)

lemma parsedNumber_Nil: "stripNonNumeric raw = [] \<Longrightarrow> parsedNumber raw = Num 0"
  by (simp add: parsedNumber_def parseFloat_zero_text)

subsection \<open>A parse that overflows\<close>

lemma bitLength_gt: "2 ^ k \<le> n \<Longrightarrow> k < bitLength n"
proof (induction k arbitrary: n)
  case 0
  then show ?case by (subst bitLength.simps) simp
next
  case (Suc k)
  then have "2 ^ k \<le> n div 2" by simp
  then have "k < bitLength (n div 2)" by (rule Suc.IH)
  moreover have "0 < (2::nat) ^ Suc k" by simp
  with Suc.prems have "n \<noteq> 0" by linarith
  ultimately show ?case by (subst bitLength.simps) simp
qed

lemma bitLength_lower: "0 < n \<Longrightarrow> 2 ^ (bitLength n - 1) \<le> n"
proof (induction n rule: bitLength.induct)
  case (1 n)
  show ?case
  proof (cases "n div 2 = 0")
    case True
    with 1 show ?thesis by (subst bitLength.simps, subst bitLength.simps) simp
  next
    case False
    with 1 have "2 ^ (bitLength (n div 2) - 1) \<le> n div 2" by simp
    moreover have "0 < bitLength (n div 2)"
      using False by (subst bitLength.simps) simp
    ultimately have "2 ^ bitLength (n div 2) \<le> 2 * (n div 2)"
      by (cases "bitLength (n div 2)") simp_all
    also have "\<dots> \<le> n" by simp
    finally show ?thesis using 1 by (subst bitLength.simps) simp
  qed
qed

lemma roundTiesToEven_ge: "a div b \<le> roundTiesToEven a b"
  by (simp add: roundTiesToEven_def Let_def)

lemma bitLength_one: "bitLength (Suc 0) = Suc 0"
  by (subst bitLength.simps, subst bitLength.simps) simp

lemma roundRatio_overflow:
  assumes "2 ^ 1024 \<le> a"
  shows "roundRatio a (Suc 0) = None"
proof -
  let ?l = "bitLength a"
  from assms have l: "1024 < ?l" by (rule bitLength_gt)
  from assms have pos: "0 < a" by (simp add: less_le_trans [of 0 "2 ^ 1024"])
  have low: "2 ^ (?l - 1) \<le> a" using pos by (rule bitLength_lower)
  have e: "ilog2 a (Suc 0) = int ?l - 1"
    using low l by (simp add: ilog2_def bitLength_one Let_def nat_diff_distrib')
  let ?p = "int ?l - 53"
  have p: "max (ilog2 a (Suc 0) - 52) (- 1074) = ?p" "0 \<le> ?p" "nat ?p = ?l - 53"
    using l by (simp_all add: e)
  let ?m = "roundTiesToEven a (2 ^ (?l - 53))"
  have "52 + (?l - 53) = ?l - 1" using l by simp
  then have "(2::nat) ^ 52 * 2 ^ (?l - 53) = 2 ^ (?l - 1)"
    by (simp only: power_add [symmetric])
  with low have "2 ^ 52 * 2 ^ (?l - 53) \<le> a" by (simp only:)
  then have "2 ^ 52 \<le> a div 2 ^ (?l - 53)"
    by (simp add: less_eq_div_iff_mult_less_eq)
  also have "\<dots> \<le> ?m" by (rule roundTiesToEven_ge)
  finally have "52 < bitLength ?m" by (rule bitLength_gt)
  then have "1024 < int (bitLength ?m) + ?p" using l by simp
  then show ?thesis
    using pos p by (simp add: roundRatio_def Let_def)
qed

lemma foldl_digits_zeros:
  "foldl (\<lambda>a c. 10 * a + digitVal c) a (replicate n (CHR ''0'')) = a * 10 ^ n"
  by (induction n arbitrary: a) (simp_all add: digitVal_def)

lemma digitsVal_overlong: "digitsVal overlong = 10 ^ 309"
proof -
  have "digitVal CHR ''1'' = 1" by (simp add: digitVal_def)
  then show ?thesis by (simp add: digitsVal_def overlong_def foldl_digits_zeros)
qed

lemma overlong_not_empty: "overlong \<noteq> []"
  by (simp add: overlong_def)

lemma overlong_digits: "takeWhile isDigit overlong = overlong" "dropWhile isDigit overlong = []"
  by (simp_all add: overlong_def isDigit_def)

lemma strUnsignedDecimalLiteral_overlong: "strUnsignedDecimalLiteral overlong = PosInfinity"
proof -
  have "(2::nat) ^ 1024 \<le> 10 ^ 309" by simp
  then have "roundRatio (10 ^ 309) (Suc 0) = None" by (rule roundRatio_overflow)
  moreover have "take 8 overlong \<noteq> ''Infinity''"
    by (simp add: overlong_def take_Cons')
  ultimately show ?thesis
    by (simp add: strUnsignedDecimalLiteral_def overlong_digits exponentPart_def
        digitsVal_overlong overlong_not_empty Let_def)
qed

lemma stripNonNumeric_overlong: "stripNonNumeric overlong = overlong"
  by (simp add: stripNonNumeric_def overlong_def isDigit_def)

lemma parseFloat_overlong: "parseFloat overlong = PosInfinity"
proof -
  have "parseFloat overlong = strUnsignedDecimalLiteral overlong"
    unfolding overlong_def by (rule parseFloat_numeric_head) (simp add: isDigit_def)
  then show ?thesis by (simp add: strUnsignedDecimalLiteral_overlong)
qed

lemma parsePrice_overlong: "parsePrice overlong = Num 0"
proof -
  from overlong_not_empty have "parsedNumber overlong = PosInfinity"
    by (simp add: parsedNumber_def stripNonNumeric_overlong parseFloat_overlong)
  then show ?thesis by (simp add: parsePrice_not_finite)
qed

lemma spec_normalize_overlong: "spec_normalize overlong = PosInfinity"
proof -
  from overlong_not_empty show ?thesis
    by (simp add: spec_normalize_def spec_parse_def spec_strip_eq stripNonNumeric_overlong
        parseFloat_overlong)
qed

lemma spec_round_nonneg: "0 \<le> v \<Longrightarrow> spec_round (Num v) = Num (of_int \<lfloor>v + 1 / 2\<rfloor>)"
  by simp

lemma spec_round_zero: "spec_round (Num 0) = Num 0"
  by (simp add: floor_numeral_ratio)

lemma parseFloat_empty: "parseFloat [] = NaN"
  by (simp add: parseFloat_def)

subsection \<open>Whole amounts below \<open>2 ^ 53\<close> parse exactly\<close>

lemma bitLength_upper: "n < 2 ^ bitLength n"
proof (induction n rule: bitLength.induct)
  case (1 n)
  show ?case
  proof (cases "n = 0")
    case True
    then show ?thesis by simp
  next
    case False
    with 1 have "n div 2 < 2 ^ bitLength (n div 2)" by simp
    then have "n < 2 * 2 ^ bitLength (n div 2)" by linarith
    with False show ?thesis by (subst bitLength.simps) simp
  qed
qed

lemma bitLength_le: "n < 2 ^ k \<Longrightarrow> bitLength n \<le> k"
proof (rule ccontr)
  assume n: "n < 2 ^ k" and "\<not> bitLength n \<le> k"
  then have k: "k \<le> bitLength n - 1" and pos: "0 < n"
    by (auto simp: bitLength.simps [of n] split: if_splits)
  from pos have "2 ^ (bitLength n - 1) \<le> n" by (rule bitLength_lower)
  moreover from k have "(2::nat) ^ k \<le> 2 ^ (bitLength n - 1)" by (simp add: power_increasing)
  ultimately show False using n by linarith
qed

lemma ilog2_one: "0 < n \<Longrightarrow> ilog2 n (Suc 0) = int (bitLength n) - 1"
proof -
  assume pos: "0 < n"
  then have "2 ^ (bitLength n - 1) \<le> n" by (rule bitLength_lower)
  moreover from pos have "0 < bitLength n" by (subst bitLength.simps) simp
  ultimately show ?thesis
    by (simp add: ilog2_def bitLength_one Let_def nat_diff_distrib')
qed

lemma roundTiesToEven_one: "roundTiesToEven a (Suc 0) = a"
  by (simp add: roundTiesToEven_def)

lemma roundRatio_exact:
  assumes "n < 2 ^ 53"
  shows "roundRatio n (Suc 0) = Some (of_nat n)"
proof (cases "n = 0")
  case True
  then show ?thesis by (simp add: roundRatio_def)
next
  case False
  let ?l = "bitLength n"
  from False have pos: "0 < n" by simp
  from assms have l: "?l \<le> 53" by (rule bitLength_le)
  let ?k = "53 - ?l"
  have p: "max (ilog2 n (Suc 0) - 52) (- 1074) = int ?l - 53"
    using l by (simp add: ilog2_one [OF pos])
  have nk: "nat (53 - int ?l) = ?k" by simp
  have "n * 2 ^ ?k < 2 ^ ?l * 2 ^ ?k" using bitLength_upper [of n] by simp
  also have "\<dots> = 2 ^ (?l + ?k)" by (simp only: power_add)
  also have "?l + ?k = 53" using l by simp
  finally have "bitLength (n * 2 ^ ?k) \<le> 53" by (rule bitLength_le)
  then have fits: "\<not> 1024 < int (bitLength (n * 2 ^ ?k)) + (int ?l - 53)" using l by simp
  show ?thesis
  proof (cases "?l = 53")
    case True
    with pos p fits show ?thesis
      by (simp add: roundRatio_def Let_def roundTiesToEven_one pow2_def)
  next
    case False
    with l have neg: "\<not> 0 \<le> int ?l - 53" by simp
    have "rat_of_nat (n * 2 ^ ?k) * pow2 (int ?l - 53) = rat_of_nat n"
      using neg by (simp add: pow2_def nk)
    with pos fits neg show ?thesis
      unfolding roundRatio_def p Let_def by (simp add: roundTiesToEven_one nk)
  qed
qed

lemma below_ten: "d < 10 \<Longrightarrow> d \<in> {0, 1, 2, 3, 4, 5, 6, 7, 8, 9 :: nat}"
  by auto

lemma digitVal_digitChar: "d < 10 \<Longrightarrow> digitVal (digitChar d) = d"
  by (drule below_ten) (auto simp: digitVal_def digitChar_def)

lemma isDigit_digitChar: "d < 10 \<Longrightarrow> isDigit (digitChar d)"
  by (drule below_ten) (auto simp: isDigit_def digitChar_def)

lemma digitsVal_snoc: "digitsVal (ds @ [c]) = 10 * digitsVal ds + digitVal c"
  by (simp add: digitsVal_def)

lemma digitsVal_decimal: "digitsVal (decimal n) = n"
proof (induction n rule: decimal.induct)
  case (1 n)
  show ?case
  proof (cases "n < 10")
    case True
    then show ?thesis
      by (subst decimal.simps) (simp add: digitsVal_def digitVal_digitChar)
  next
    case False
    with 1 have "digitsVal (decimal (n div 10)) = n div 10" by simp
    with False show ?thesis
      by (subst decimal.simps) (simp add: digitsVal_snoc digitVal_digitChar)
  qed
qed

lemma decimal_digits: "c \<in> set (decimal n) \<Longrightarrow> isDigit c"
proof (induction n rule: decimal.induct)
  case (1 n)
  show ?case
  proof (cases "n < 10")
    case True
    with 1(2) show ?thesis
      by (subst (asm) decimal.simps) (simp add: isDigit_digitChar)
  next
    case False
    with 1 show ?thesis
      by (subst (asm) (2) decimal.simps) (auto simp: isDigit_digitChar)
  qed
qed

lemma decimal_not_empty: "decimal n \<noteq> []"
  by (subst decimal.simps) simp

lemma strUnsignedDecimalLiteral_decimal:
  assumes "n < 2 ^ 53"
  shows "strUnsignedDecimalLiteral (decimal n) = Num (of_nat n)"
proof -
  have all: "takeWhile isDigit (decimal n) = decimal n" "dropWhile isDigit (decimal n) = []"
    using decimal_digits by simp_all
  obtain c r where cr: "decimal n = c # r" using decimal_not_empty by (cases "decimal n") auto
  then have "isDigit c" using decimal_digits [of c n] by simp
  then have "take 8 (decimal n) \<noteq> ''Infinity''"
    unfolding cr by (auto simp: take_Cons' isDigit_def)
  then show ?thesis
    using roundRatio_exact [OF assms]
    by (simp add: strUnsignedDecimalLiteral_def all exponentPart_def digitsVal_decimal
        decimal_not_empty Let_def)
qed

lemma stripNonNumeric_decimal: "stripNonNumeric (decimal n) = decimal n"
  using decimal_digits by (simp add: stripNonNumeric_def)

lemma parsePrice_decimal:
  assumes "n < 2 ^ 53"
  shows "parsePrice (decimal n) = Num (of_nat n)"
proof -
  obtain c r where cr: "decimal n = c # r" using decimal_not_empty by (cases "decimal n") auto
  then have "isDigit c" using decimal_digits [of c n] by simp
  then have "parseFloat (decimal n) = strUnsignedDecimalLiteral (decimal n)"
    unfolding cr by (intro parseFloat_numeric_head) simp
  then have "parsedNumber (decimal n) = Num (of_nat n)"
    using assms
    by (simp add: parsedNumber_def stripNonNumeric_decimal decimal_not_empty
        strUnsignedDecimalLiteral_decimal)
  then have "parsePrice (decimal n) = Num (of_int \<lfloor>rat_of_nat n + 1 / 2\<rfloor>)"
    by (rule parsePrice_finite)
  moreover have "\<lfloor>rat_of_nat n + 1 / 2\<rfloor> = int n"
    by (simp add: floor_unique)
  ultimately show ?thesis by simp
qed

lemma parsePrice_shape:
  "\<exists>v::rat. 0 \<le> v \<and> parsePrice raw = Num (of_int \<lfloor>v + 1 / 2\<rfloor>)"
proof -
  from parsedNumber_range [of raw]
  consider "\<not> Number_isFinite (parsedNumber raw)"
    | v where "0 \<le> v" "parsedNumber raw = Num v"
    by (elim disjE exE conjE) simp_all
  then show ?thesis
  proof cases
    case 1
    then have "(0::rat) \<le> 0 \<and> parsePrice raw = Num (of_int \<lfloor>(0::rat) + 1 / 2\<rfloor>)"
      by (simp add: parsePrice_not_finite floor_numeral_ratio)
    then show ?thesis by (rule exI)
  next
    case (2 v)
    then have "0 \<le> v \<and> parsePrice raw = Num (of_int \<lfloor>v + 1 / 2\<rfloor>)"
      by (simp add: parsePrice_finite)
    then show ?thesis by (rule exI)
  qed
qed

section \<open>The documented values\<close>

text \<open>
  C3. On its five documented inputs the price normalizer returns: \<open>"$790"\<close> gives 790,
  \<open>"790.50"\<close> gives 791, \<open>"$1,234.56"\<close> gives 1235, the empty text gives 0 and
  \<open>"free"\<close> gives 0.
\<close>

theorem parsePrice_documented_values:
  "parsePrice ''$790'' = Num 790
   \<and> parsePrice ''790.50'' = Num 791
   \<and> parsePrice ''$1,234.56'' = Num 1235
   \<and> parsePrice '''' = Num 0
   \<and> parsePrice ''free'' = Num 0"
  by (simp add: number_eval)

section \<open>The normalizer against its specification\<close>

text \<open>
  C2, as stated: on every input text the price normalizer does exactly what the three
  steps say, zero standing for an empty rest or a failed parse. On a one followed by 309
  zeros the parse does not fail: it yields \<open>Infinity\<close>, which the three steps would
  round, and which the code replaces by zero (\<open>Number.isFinite(n) ? n : 0\<close>).
\<close>

theorem parsePrice_overflow_counterexample:
  "parsePrice overlong = Num 0 \<and> spec_normalize overlong = PosInfinity
   \<and> parsePrice overlong \<noteq> spec_normalize overlong"
  by (simp add: parsePrice_overlong spec_normalize_overlong)

text \<open>
  C2, amended: on every input text the price normalizer removes every character that is
  not a decimal digit or a dot, parses what is left as a floating-point number, takes
  zero when nothing is left, when the parse fails and also when the parse overflows to
  infinity, and rounds to the nearest integer.
\<close>

theorem parsePrice_follows_spec:
  "parsePrice raw =
     (if parseFloat (stripNonNumeric raw) = PosInfinity then Num 0 else spec_normalize raw)"
proof (cases "stripNonNumeric raw")
  case Nil
  then have "parsePrice raw = Num (of_int \<lfloor>(0::rat) + 1 / 2\<rfloor>)"
    by (simp only: parsePrice_finite [OF parsedNumber_Nil])
  then have "parsePrice raw = Num 0" by (simp add: floor_numeral_ratio)
  moreover have "spec_normalize raw = Num 0"
    using Nil by (simp add: spec_normalize_def spec_strip_eq spec_parse_def spec_round_zero del: spec_round.simps)
  ultimately show ?thesis using Nil by (simp add: parseFloat_empty)
next
  case (Cons c r)
  note p = parsedNumber_Cons [OF Cons]
  have n: "spec_normalize raw = spec_round (case parseFloat (c # r) of NaN \<Rightarrow> Num 0 | n \<Rightarrow> n)"
    using Cons by (simp add: spec_normalize_def spec_strip_eq spec_parse_def)
  from parsedNumber_range [of raw]
  consider "parseFloat (c # r) = NaN" | "parseFloat (c # r) = PosInfinity"
    | v where "0 \<le> v" "parseFloat (c # r) = Num v"
    unfolding p by blast
  then show ?thesis
  proof cases
    case 1
    then have "parsePrice raw = Num 0" using p by (simp add: parsePrice_not_finite)
    with 1 show ?thesis unfolding n Cons by (simp add: spec_round_zero del: spec_round.simps)
  next
    case 2
    then have "parsePrice raw = Num 0" using p by (simp add: parsePrice_not_finite)
    with 2 show ?thesis unfolding Cons by simp
  next
    case (3 v)
    then have "parsePrice raw = Num (of_int \<lfloor>v + 1 / 2\<rfloor>)"
      using p by (simp add: parsePrice_finite)
    with 3 show ?thesis unfolding n Cons by simp
  qed
qed

theorem parsePrice_follows_spec_witness:
  "parsePrice ''US$ 1,234.56'' = Num 1235 \<and> spec_normalize ''US$ 1,234.56'' = Num 1235
   \<and> parseFloat (stripNonNumeric overlong) = PosInfinity \<and> parsePrice overlong = Num 0"
proof -
  have a: "parsePrice ''US$ 1,234.56'' = Num 1235" by (simp add: number_eval)
  have b: "parseFloat (stripNonNumeric ''US$ 1,234.56'') \<noteq> PosInfinity"
    by (simp add: number_eval)
  have c: "parseFloat (stripNonNumeric overlong) = PosInfinity"
    by (simp add: stripNonNumeric_overlong parseFloat_overlong)
  from parsePrice_follows_spec [of "''US$ 1,234.56''"] parsePrice_follows_spec [of overlong] a b c
  show ?thesis by simp
qed

section \<open>Totality and sign\<close>

text \<open>
  C4. The price normalizer is total: for every input text it returns a finite integer
  (the model has no branch that raises), and it returns zero whenever the stripped text
  does not parse to a finite number.
\<close>

theorem parsePrice_total:
  "(\<exists>z. parsePrice raw = Num (of_int z))
   \<and> (\<not> Number_isFinite (parseFloat (stripNonNumeric raw)) \<longrightarrow> parsePrice raw = Num 0)"
proof
  from parsePrice_shape [of raw] show "\<exists>z. parsePrice raw = Num (of_int z)" by blast
next
  show "\<not> Number_isFinite (parseFloat (stripNonNumeric raw)) \<longrightarrow> parsePrice raw = Num 0"
  proof (cases "stripNonNumeric raw")
    case Nil
    from parsePrice_finite [OF parsedNumber_Nil [OF Nil]] show ?thesis
      by (simp add: floor_numeral_ratio)
  next
    case (Cons c r)
    then show ?thesis using parsedNumber_Cons [OF Cons] parsePrice_not_finite [of raw] by simp
  qed
qed

theorem parsePrice_total_witness:
  "(\<exists>z. parsePrice ''$..5 n/a'' = Num (of_int z))
   \<and> parseFloat (stripNonNumeric ''$..5 n/a'') = NaN \<and> parsePrice ''$..5 n/a'' = Num 0"
proof -
  have "parseFloat (stripNonNumeric ''$..5 n/a'') = NaN" by (simp add: number_eval)
  with parsePrice_total [of "''$..5 n/a''"] show ?thesis by simp
qed

text \<open>
  C10. For every input text, a minus sign included, the price normalizer returns an
  integer that is at least zero: stripping removes the sign before the parse.
\<close>

theorem parsePrice_never_negative: "\<exists>z. 0 \<le> z \<and> parsePrice raw = Num (of_int z)"
proof -
  from parsePrice_shape [of raw] obtain v :: rat
    where v: "0 \<le> v" "parsePrice raw = Num (of_int \<lfloor>v + 1 / 2\<rfloor>)"
    by blast
  from v(1) have "0 \<le> \<lfloor>v + 1 / 2\<rfloor>" by simp
  with v(2) have "0 \<le> \<lfloor>v + 1 / 2\<rfloor> \<and> parsePrice raw = Num (of_int \<lfloor>v + 1 / 2\<rfloor>)"
    by simp
  then show ?thesis by (rule exI)
qed

theorem parsePrice_never_negative_witness:
  "parsePrice ''-42.4'' = Num 42 \<and> (\<exists>z. 0 \<le> z \<and> parsePrice ''-42.4'' = Num (of_int z))"
proof -
  have "parsePrice ''-42.4'' = Num 42" by (simp add: number_eval)
  with parsePrice_never_negative [of "''-42.4''"] show ?thesis by simp
qed

section \<open>Facts about the cart page object\<close>

lemmas example_carts =
  sony5_def sony7_def dell_def macbook_def halfPrice_def twoItems_def shortTotal_def oneItem_def
  plainCart_def centsCart_def driftCart_def emptyCart_def

lemma keepFrom_below: "\<forall>p \<in> set ps. p < k \<Longrightarrow> keepFrom k ps rs = rs"
proof (induction rs arbitrary: k)
  case Nil
  then show ?case by simp
next
  case (Cons r rs)
  then have "k \<notin> set ps" by auto
  moreover from Cons.prems have "\<forall>p \<in> set ps. p < Suc k" by auto
  ultimately show ?case using Cons.IH by simp
qed

lemma keepFrom_single: "keepFrom k [k + i] rs = take i rs @ drop (Suc i) rs"
proof (induction rs arbitrary: k i)
  case Nil
  then show ?case by simp
next
  case (Cons r rs)
  show ?case
  proof (cases i)
    case 0
    then show ?thesis by (simp add: keepFrom_below)
  next
    case (Suc j)
    with Cons.IH [of "Suc k" j] show ?thesis by simp
  qed
qed

lemma storefrontApply_nothing: "storefrontApply [] rs = rs"
  by (simp add: storefrontApply_def keepFrom_below)

lemma storefrontApply_single: "storefrontApply [i] rs = storefrontDelete i rs"
  using keepFrom_single [of 0 i rs] by (simp add: storefrontApply_def storefrontDelete_def)

lemma settle_settled: "pending s = [] \<Longrightarrow> settle s = s"
  by (simp add: settle_def storefrontApply_nothing)

lemma pending_settle: "pending (settle s) = []"
  by (simp add: settle_def)

lemma deleteClicks_settle: "deleteClicks (settle s) = deleteClicks s"
  by (simp add: settle_def)


lemma deleteByIndex_state:
  assumes "i < length (rows s)"
  shows "snd (deleteByIndex i s) =
    s\<lparr>rows := storefrontApply (pending s @ [i]) (rows s),
      deleteClicks := deleteClicks s @ [i], pending := []\<rparr>"
  using assms
  by (simp add: deleteByIndex_def clickDelete_def waitForDetached_def settle_def Let_def)

lemma deleteByIndex_returns:
  assumes "i < length (rows s)"
  shows "fst (deleteByIndex i s) = Inr () \<longleftrightarrow>
    length (storefrontApply (pending s @ [i]) (rows s)) \<le> i"
  using assms
  by (auto simp: deleteByIndex_def clickDelete_def waitForDetached_def settle_def Let_def)


lemma deleteByIndex_last:
  assumes "pending s = []" and "Suc i = length (rows s)"
  shows "deleteByIndex i s =
    (Inr (), s\<lparr>rows := storefrontDelete i (rows s), deleteClicks := deleteClicks s @ [i]\<rparr>)"
proof -
  from assms(2) have i: "i < length (rows s)" by simp
  have l: "length (storefrontDelete i (rows s)) = i"
    using assms(2) by (simp add: storefrontDelete_def)
  have "fst (deleteByIndex i s) = Inr ()"
    using deleteByIndex_returns [OF i] assms(1) l by (simp add: storefrontApply_single)
  moreover have "snd (deleteByIndex i s) =
      s\<lparr>rows := storefrontDelete i (rows s), deleteClicks := deleteClicks s @ [i]\<rparr>"
    using deleteByIndex_state [OF i] assms(1) by (simp add: storefrontApply_single)
  ultimately show ?thesis by (simp add: prod_eq_iff)
qed

lemma deleteDownFrom_all:
  "pending s = [] \<Longrightarrow> length (rows s) = k \<Longrightarrow>
   deleteDownFrom k s = (Inr (), s\<lparr>rows := [], deleteClicks := deleteClicks s @ rev [0..<k]\<rparr>)"
proof (induction k arbitrary: s)
  case 0
  then show ?case by simp
next
  case (Suc k)
  let ?s' = "s\<lparr>rows := storefrontDelete k (rows s), deleteClicks := deleteClicks s @ [k]\<rparr>"
  have del: "deleteByIndex k s = (Inr (), ?s')"
    using Suc.prems by (simp add: deleteByIndex_last)
  have "pending ?s' = []" and "length (rows ?s') = k"
    using Suc.prems by (simp_all add: storefrontDelete_def)
  from Suc.IH [OF this] del show ?case by simp
qed

lemma clearCart_settled:
  assumes "pending s = []"
  shows "clearCart s =
    (Inr (), s\<lparr>rows := [], deleteClicks := deleteClicks s @ rev [0..<length (rows s)]\<rparr>)"
proof (cases "rows s = []")
  case True
  then show ?thesis using assms by (simp add: clearCart_def open_def countItems_def settle_settled)
next
  case False
  then show ?thesis
    using assms deleteDownFrom_all [OF assms refl]
    by (simp add: clearCart_def open_def countItems_def settle_settled)
qed

lemma open_settles: "open s = (Inr (), settle s)"
  by (simp add: open_def Let_def)

lemma clearCart_open: "clearCart s = clearCart (settle s)"
  by (simp add: clearCart_def open_settles settle_settled [OF pending_settle])

lemma getRowName_in_range:
  "i < length (rows s) \<Longrightarrow> getRowName i s = (Inr (rowName (rows s ! i)), s)"
  by (simp add: getRowName_def textContent_def rowName_def)



lemma parsePrice_stripped_empty: "stripNonNumeric raw = [] \<Longrightarrow> parsePrice raw = Num 0"
  using parsePrice_finite [OF parsedNumber_Nil, of raw] by (simp add: floor_numeral_ratio)

lemma parsePrice_same_stripped:
  "stripNonNumeric a = stripNonNumeric b \<Longrightarrow> parsePrice a = parsePrice b"
  by (simp add: parsePrice_def)

lemma parsePrice_valueOf: "Num (valueOf (parsePrice raw)) = parsePrice raw"
  using parsePrice_shape [of raw] by auto

lemma parsePrice_whole:
  assumes "parsedNumber raw = Num (of_nat p)"
  shows "parsePrice raw = Num (of_nat p)"
proof -
  have "\<lfloor>rat_of_nat p + 1 / 2\<rfloor> = int p" by (simp add: floor_unique)
  with parsePrice_finite [OF assms] show ?thesis by simp
qed

lemma parseFloat_decimal:
  assumes "p < 2 ^ 53"
  shows "parseFloat (decimal p) = Num (of_nat p)"
proof -
  obtain c r where cr: "decimal p = c # r" using decimal_not_empty by (cases "decimal p") auto
  then have "isDigit c" using decimal_digits [of c p] by simp
  then have "parseFloat (decimal p) = strUnsignedDecimalLiteral (decimal p)"
    unfolding cr by (intro parseFloat_numeric_head) simp
  with assms show ?thesis by (simp add: strUnsignedDecimalLiteral_decimal)
qed

lemma parsedNumber_decimal_text:
  assumes "stripNonNumeric raw = decimal p" and "p < 2 ^ 53"
  shows "parsedNumber raw = Num (of_nat p)"
  using assms by (simp add: parsedNumber_def decimal_not_empty parseFloat_decimal)

lemma map_transfer:
  "map g xs = map h ps \<Longrightarrow> (\<forall>p \<in> set ps. \<forall>x. g x = h p \<longrightarrow> f x = k p) \<Longrightarrow>
   map f xs = map k ps"
proof (induction xs arbitrary: ps)
  case Nil
  then show ?case by simp
next
  case (Cons x xs)
  then obtain p qs where ps: "ps = p # qs" by (cases ps) auto
  with Cons.prems have "g x = h p" and "map g xs = map h qs"
    and "\<forall>q \<in> set qs. \<forall>x. g x = h q \<longrightarrow> f x = k q" and "f x = k p"
    by simp_all
  with Cons.IH [of qs] ps show ?case by simp
qed

lemma sum_values_whole:
  "sum_list (map (valueOf \<circ> (\<lambda>p. Num (of_nat p))) ps) = of_nat (sum_list ps)"
  by (induction ps) simp_all

lemma totalMatchesSum_whole:
  assumes "map (\<lambda>r. parsedNumber (nullish (priceCell r) ''0'')) (rows s)
      = map (\<lambda>p. Num (of_nat p)) ps"
    and "parsedNumber (nullish (totalText s (rows s)) ''0'') = Num (of_nat (sum_list ps))"
  shows "totalMatchesSum s" and "fst (getTotal s) = Inr (Num (of_nat (sum_list ps)))"
    and "lineAmounts s = map (\<lambda>p. Num (of_nat p)) ps"
proof -
  show t: "fst (getTotal s) = Inr (Num (of_nat (sum_list ps)))"
    using parsePrice_whole [OF assms(2)] by (simp add: getTotal_def)
  show l: "lineAmounts s = map (\<lambda>p. Num (of_nat p)) ps"
    unfolding lineAmounts_def
    by (rule map_transfer [OF assms(1)]) (simp add: parsePrice_whole)
  from t l show "totalMatchesSum s"
    by (simp add: totalMatchesSum_def sum_values_whole)
qed

lemma whole_texts_parse:
  assumes "map (\<lambda>r. stripNonNumeric (nullish (priceCell r) ''0'')) (rows s) = map decimal ps"
    and "sum_list ps < 2 ^ 53"
  shows "map (\<lambda>r. parsedNumber (nullish (priceCell r) ''0'')) (rows s)
      = map (\<lambda>p. Num (of_nat p)) ps"
proof (rule map_transfer [OF assms(1)], intro ballI allI impI)
  fix p x
  assume "p \<in> set ps"
    and "stripNonNumeric (nullish (priceCell x) ''0'') = decimal p"
  moreover from \<open>p \<in> set ps\<close> have "p \<le> sum_list ps" by (simp add: member_le_sum_list)
  ultimately show "parsedNumber (nullish (priceCell x) ''0'') = Num (of_nat p)"
    using assms(2) by (intro parsedNumber_decimal_text) simp_all
qed

lemma getRowPrice_in_range:
  "i < length (rows s) \<Longrightarrow>
   getRowPrice i s = (Inr (parsePrice (nullish (priceCell (rows s ! i)) ''0'')), s)"
  by (simp add: getRowPrice_def textContent_def)

lemma getRow_out_of_range:
  assumes "length (rows s) \<le> i"
  shows "getRowName i s = (Inl TimeoutError, s)" and "getRowPrice i s = (Inl TimeoutError, s)"
  using assms by (simp_all add: getRowName_def getRowPrice_def textContent_def)

lemma parsePrice_nonneg_int: "\<exists>z. 0 \<le> z \<and> parsePrice raw = Num (of_int z)"
proof -
  from parsePrice_shape [of raw] obtain v :: rat
    where v: "0 \<le> v" "parsePrice raw = Num (of_int \<lfloor>v + 1 / 2\<rfloor>)"
    by blast
  from v(1) have "0 \<le> \<lfloor>v + 1 / 2\<rfloor>" by simp
  with v(2) have "0 \<le> \<lfloor>v + 1 / 2\<rfloor> \<and> parsePrice raw = Num (of_int \<lfloor>v + 1 / 2\<rfloor>)"
    by simp
  then show ?thesis by (rule exI)
qed

section \<open>The total against the sum of the line items\<close>

text \<open>
  C1, as stated: for every cart snapshot the normalized total equals the sum of the
  normalized prices of the line items. Each price is rounded before the sum is taken, so
  the equality can fail on a storefront that adds up correctly: two items at 10.50 under
  a total of 21.00 read as a total of 21 against line items of 11 and 11. And the cart
  page object reads whatever the storefront shows: two items at 790 under a total text
  of \<open>790\<close> read as 790 against 790 and 790.
\<close>

theorem total_differs_from_sum_counterexample:
  "fst (getTotal driftCart) = Inr (Num 21)
   \<and> lineAmounts driftCart = [Num 11, Num 11]
   \<and> \<not> totalMatchesSum driftCart
   \<and> fst (getTotal shortTotal) = Inr (Num 790)
   \<and> lineAmounts shortTotal = [Num 790, Num 790]
   \<and> \<not> totalMatchesSum shortTotal"
  by (simp add: totalMatchesSum_def getTotal_def lineAmounts_def example_carts nullish_def number_eval)

text \<open>
  C1, amended: the normalized total equals the sum of the normalized prices for every
  snapshot whose amounts are whole and add up: each price text, stripped, parses to a
  whole number, and the total text to the sum of those numbers. That is so in particular
  when the stripped texts are the plain decimal numbers of the prices and of their sum
  (below \<open>2 ^ 53\<close>), whatever currency signs and separators the texts carry, and for an
  empty cart whose total text is blank. For a cart of one item whose total text has the
  digits and dots of the item's price text, \<open>getTotal\<close> and \<open>getRowPrice 0\<close> return the
  same amount, whole or not.
\<close>

theorem total_matches_sum_whole_amounts:
  "(map (\<lambda>r. parsedNumber (nullish (priceCell r) ''0'')) (rows s) = map (\<lambda>p. Num (of_nat p)) ps
      \<and> parsedNumber (nullish (totalText s (rows s)) ''0'') = Num (of_nat (sum_list ps)) \<longrightarrow>
      totalMatchesSum s \<and> fst (getTotal s) = Inr (Num (of_nat (sum_list ps)))
      \<and> lineAmounts s = map (\<lambda>p. Num (of_nat p)) ps)
   \<and> (map (\<lambda>r. stripNonNumeric (nullish (priceCell r) ''0'')) (rows s) = map decimal ps
        \<and> stripNonNumeric (nullish (totalText s (rows s)) ''0'') = decimal (sum_list ps)
        \<and> sum_list ps < 2 ^ 53 \<longrightarrow>
        totalMatchesSum s \<and> fst (getTotal s) = Inr (Num (of_nat (sum_list ps))))
   \<and> (rows s = [r]
        \<and> stripNonNumeric (nullish (totalText s [r]) ''0'')
            = stripNonNumeric (nullish (priceCell r) ''0'') \<longrightarrow>
        totalMatchesSum s \<and> fst (getTotal s) = fst (getRowPrice 0 s))"
proof (intro conjI impI)
  assume a: "map (\<lambda>r. parsedNumber (nullish (priceCell r) ''0'')) (rows s)
      = map (\<lambda>p. Num (of_nat p)) ps
    \<and> parsedNumber (nullish (totalText s (rows s)) ''0'') = Num (of_nat (sum_list ps))"
  then show "totalMatchesSum s" "fst (getTotal s) = Inr (Num (of_nat (sum_list ps)))"
    "lineAmounts s = map (\<lambda>p. Num (of_nat p)) ps"
    by (simp_all add: totalMatchesSum_whole)
next
  assume b: "map (\<lambda>r. stripNonNumeric (nullish (priceCell r) ''0'')) (rows s) = map decimal ps
    \<and> stripNonNumeric (nullish (totalText s (rows s)) ''0'') = decimal (sum_list ps)
    \<and> sum_list ps < 2 ^ 53"
  then have "map (\<lambda>r. parsedNumber (nullish (priceCell r) ''0'')) (rows s)
      = map (\<lambda>p. Num (of_nat p)) ps"
    by (intro whole_texts_parse) simp_all
  moreover from b have "parsedNumber (nullish (totalText s (rows s)) ''0'')
      = Num (of_nat (sum_list ps))"
    by (intro parsedNumber_decimal_text) simp_all
  ultimately show "totalMatchesSum s" "fst (getTotal s) = Inr (Num (of_nat (sum_list ps)))"
    by (rule totalMatchesSum_whole)+
next
  assume o: "rows s = [r]
    \<and> stripNonNumeric (nullish (totalText s [r]) ''0'') = stripNonNumeric (nullish (priceCell r) ''0'')"
  then have eq: "parsePrice (nullish (totalText s [r]) ''0'') = parsePrice (nullish (priceCell r) ''0'')"
    by (intro parsePrice_same_stripped) simp
  with o show "totalMatchesSum s"
    by (simp add: totalMatchesSum_def getTotal_def lineAmounts_def parsePrice_valueOf)
  from o eq show "fst (getTotal s) = fst (getRowPrice 0 s)"
    by (simp add: getTotal_def getRowPrice_def textContent_def)
qed

theorem total_matches_sum_whole_amounts_witness:
  "totalMatchesSum emptyCart \<and> fst (getTotal emptyCart) = Inr (Num 0)
   \<and> totalMatchesSum centsCart \<and> fst (getTotal centsCart) = Inr (Num 1490)
   \<and> totalMatchesSum plainCart \<and> fst (getTotal plainCart) = Inr (Num 1490)
   \<and> totalMatchesSum oneItem \<and> fst (getTotal oneItem) = fst (getRowPrice 0 oneItem)"
proof -
  have e: "map (\<lambda>r. parsedNumber (nullish (priceCell r) ''0'')) (rows emptyCart)
      = map (\<lambda>p. Num (of_nat p)) []
    \<and> parsedNumber (nullish (totalText emptyCart (rows emptyCart)) ''0'')
        = Num (of_nat (sum_list []))"
    by (simp add: emptyCart_def nullish_def parsedNumber_def stripNonNumeric_def
        parseFloat_zero_text)
  have c: "map (\<lambda>r. parsedNumber (nullish (priceCell r) ''0'')) (rows centsCart)
      = map (\<lambda>p. Num (of_nat p)) [790, 700]
    \<and> parsedNumber (nullish (totalText centsCart (rows centsCart)) ''0'')
        = Num (of_nat (sum_list [790, 700]))"
    by (simp add: centsCart_def sony5_def macbook_def nullish_def parsedNumber_def number_eval)
  have d: "decimal 790 = ''790''" "decimal 700 = ''700''" "decimal 1490 = ''1490''"
    by (simp_all add: decimal.simps digitChar_def)
  have p: "map (\<lambda>r. stripNonNumeric (nullish (priceCell r) ''0'')) (rows plainCart)
      = map decimal [790, 700]
    \<and> stripNonNumeric (nullish (totalText plainCart (rows plainCart)) ''0'')
        = decimal (sum_list [790, 700])
    \<and> sum_list [790, 700] < (2::nat) ^ 53"
    by (simp add: plainCart_def sony7_def dell_def d nullish_def stripNonNumeric_def isDigit_def)
  have o: "rows oneItem = [sony7]
    \<and> stripNonNumeric (nullish (totalText oneItem [sony7]) ''0'')
        = stripNonNumeric (nullish (priceCell sony7) ''0'')"
    by (simp add: oneItem_def sony7_def nullish_def stripNonNumeric_def isDigit_def)
  from total_matches_sum_whole_amounts [of emptyCart "[]"] e
  have a1: "totalMatchesSum emptyCart \<and> fst (getTotal emptyCart) = Inr (Num (of_nat (sum_list [])))"
    by blast
  from total_matches_sum_whole_amounts [of centsCart "[790, 700]"] c
  have a2: "totalMatchesSum centsCart
      \<and> fst (getTotal centsCart) = Inr (Num (of_nat (sum_list [790, 700])))"
    by blast
  from total_matches_sum_whole_amounts [of plainCart "[790, 700]"] p
  have a3: "totalMatchesSum plainCart
      \<and> fst (getTotal plainCart) = Inr (Num (of_nat (sum_list [790, 700])))"
    by blast
  from total_matches_sum_whole_amounts [of oneItem _ sony7] o
  have a4: "totalMatchesSum oneItem \<and> fst (getTotal oneItem) = fst (getRowPrice 0 oneItem)"
    by blast
  from a1 a2 a3 a4 show ?thesis by simp
qed

section \<open>Clearing the cart\<close>

text \<open>
  C5. \<open>clearCart\<close> clicks Delete at the highest position first and works down to
  position 0, one item at a time; it returns with no line item left; and calling it again
  on the emptied cart deletes nothing and leaves the cart as it is.
\<close>

theorem clearCart_empties_cart:
  "clearCart s =
     (Inr (), (settle s)\<lparr>rows := [],
        deleteClicks := deleteClicks s @ rev [0..<length (rows (settle s))]\<rparr>)
   \<and> clearCart (snd (clearCart s)) = (Inr (), snd (clearCart s))"
proof -
  let ?t = "(settle s)\<lparr>rows := [],
    deleteClicks := deleteClicks s @ rev [0..<length (rows (settle s))]\<rparr>"
  have first: "clearCart s = (Inr (), ?t)"
    using clearCart_settled [OF pending_settle, of s] clearCart_open [of s]
    by (simp add: deleteClicks_settle)
  have "pending ?t = []" by (simp add: pending_settle)
  from clearCart_settled [OF this] have "clearCart ?t = (Inr (), ?t)" by simp
  with first show ?thesis by simp
qed

theorem clearCart_empties_cart_witness:
  "clearCart twoItems = (Inr (), twoItems\<lparr>rows := [], deleteClicks := [1, 0]\<rparr>)
   \<and> clearCart (twoItems\<lparr>rows := [], deleteClicks := [1, 0]\<rparr>)
       = (Inr (), twoItems\<lparr>rows := [], deleteClicks := [1, 0]\<rparr>)"
proof -
  have s: "settle twoItems = twoItems"
    by (rule settle_settled) (simp add: twoItems_def)
  have n: "deleteClicks twoItems @ rev [0..<length (rows twoItems)] = [1, 0]"
    by (simp add: twoItems_def upt_rec [of 0] upt_rec [of 1])
  note t = clearCart_empties_cart [of twoItems, unfolded s n]
  have a: "clearCart twoItems = (Inr (), twoItems\<lparr>rows := [], deleteClicks := [1, 0]\<rparr>)"
    by (rule conjunct1 [OF t])
  have "clearCart (snd (clearCart twoItems)) = (Inr (), snd (clearCart twoItems))"
    by (rule conjunct2 [OF t])
  then have "clearCart (twoItems\<lparr>rows := [], deleteClicks := [1, 0]\<rparr>)
      = (Inr (), twoItems\<lparr>rows := [], deleteClicks := [1, 0]\<rparr>)"
    unfolding a snd_conv .
  with a show ?thesis by (rule conjI)
qed

section \<open>Deleting by name\<close>



section \<open>Reading a line item by position\<close>

text \<open>
  C7, as stated: reading a line item at a position outside the listing fails with an
  out-of-range condition. The code makes no range check: the driver waits for a row at
  that position and gives up, and what is raised is its timeout.
\<close>

theorem getRowPrice_out_of_range_counterexample:
  "fst (getRowPrice 1 oneItem) = Inl TimeoutError
   \<and> \<not> (\<exists>e. fst (getRowPrice 1 oneItem) = Inl e \<and> conditionOf e = OutOfRange)"
  by (simp add: getRowPrice_def textContent_def oneItem_def)

text \<open>
  C7, amended: \<open>getRowName\<close> and \<open>getRowPrice\<close> at a position outside the listing fail
  with the driver's timeout and leave the page as it is; at a position inside it they
  return the trimmed name and the price text passed through the price normalizer (the
  text \<open>0\<close> when the driver reports none), which is an integer that is at least zero.
\<close>

theorem getRow_by_position:
  "(length (rows s) \<le> i \<longrightarrow>
      getRowName i s = (Inl TimeoutError, s) \<and> getRowPrice i s = (Inl TimeoutError, s))
   \<and> (i < length (rows s) \<longrightarrow>
        getRowName i s = (Inr (rowName (rows s ! i)), s)
        \<and> getRowPrice i s = (Inr (parsePrice (nullish (priceCell (rows s ! i)) ''0'')), s)
        \<and> (\<exists>z. 0 \<le> z \<and> fst (getRowPrice i s) = Inr (Num (of_int z))))"
proof (intro conjI impI)
  assume "length (rows s) \<le> i"
  then show "getRowName i s = (Inl TimeoutError, s)" "getRowPrice i s = (Inl TimeoutError, s)"
    by (rule getRow_out_of_range)+
next
  assume i: "i < length (rows s)"
  then show "getRowName i s = (Inr (rowName (rows s ! i)), s)"
    by (rule getRowName_in_range)
  from i show "getRowPrice i s = (Inr (parsePrice (nullish (priceCell (rows s ! i)) ''0'')), s)"
    by (rule getRowPrice_in_range)
  from parsePrice_nonneg_int [of "nullish (priceCell (rows s ! i)) ''0''"] i
  show "\<exists>z. 0 \<le> z \<and> fst (getRowPrice i s) = Inr (Num (of_int z))"
    by (simp add: getRowPrice_in_range)
qed

theorem getRow_by_position_witness:
  "getRowName 1 oneItem = (Inl TimeoutError, oneItem)
   \<and> getRowPrice 1 oneItem = (Inl TimeoutError, oneItem)
   \<and> getRowName 0 oneItem = (Inr ''Sony vaio i7'', oneItem)
   \<and> getRowPrice 0 oneItem = (Inr (Num 790), oneItem)"
proof -
  have len: "length (rows oneItem) = 1" by (simp add: oneItem_def)
  have n: "rowName (rows oneItem ! 0) = ''Sony vaio i7''"
    by (simp add: example_carts rowName_def trim_def nullish_def isStrWhiteSpaceChar_def)
  have p: "parsePrice (nullish (priceCell (rows oneItem ! 0)) ''0'') = Num 790"
    by (simp add: example_carts nullish_def number_eval)
  from getRow_by_position [of oneItem 1] getRow_by_position [of oneItem 0]
  show ?thesis unfolding len n p by simp
qed

section \<open>Deleting by position\<close>




end
